theory Spec2Isabelle
  imports Main "HOL-Library.Word"
begin

section \<open>JavaScript strings\<close>

text \<open>
  A JavaScript string is a sequence of UTF-16 code units; \<open>length\<close> and the
  \<open>maxLength\<close> attribute of an input element both count code units.
\<close>

type_synonym jschar = "16 word"
type_synonym jsstring = "jschar list"

text \<open>A string literal of the source (ASCII only), as code units.\<close>

definition js :: "string \<Rightarrow> jsstring" where
  "js cs = map of_char cs"

text \<open>
  \<open>String.prototype.trim\<close> strips WhiteSpace and LineTerminator code points from both
  ends (ECMAScript: TAB, VT, FF, ZWNBSP, the Unicode category Zs, LF, CR, LS, PS).
\<close>

definition isWhiteSpace :: "jschar \<Rightarrow> bool" where
  "isWhiteSpace c \<longleftrightarrow>
     c = 0x0009 \<or> c = 0x000A \<or> c = 0x000B \<or> c = 0x000C \<or> c = 0x000D \<or>
     c = 0x0020 \<or> c = 0x00A0 \<or> c = 0x1680 \<or> (0x2000 \<le> c \<and> c \<le> 0x200A) \<or>
     c = 0x2028 \<or> c = 0x2029 \<or> c = 0x202F \<or> c = 0x205F \<or> c = 0x3000 \<or>
     c = 0xFEFF"

definition trim :: "jsstring \<Rightarrow> jsstring" where
  "trim s = rev (dropWhile isWhiteSpace (rev (dropWhile isWhiteSpace s)))"

text \<open>\<open>Number.prototype.toString\<close> on the integers that \<open>Date.now()\<close> returns.\<close>

fun digits :: "nat \<Rightarrow> jsstring" where
  "digits n =
     (if n < 10 then [of_nat (48 + n)]
      else digits (n div 10) @ [of_nat (48 + n mod 10)])"

declare digits.simps [simp del]

definition toString :: "int \<Rightarrow> jsstring" where
  "toString n = (if n < 0 then 0x002D # digits (nat (- n)) else digits (nat n))"

section \<open>The types of ChatApp.tsx\<close>

datatype sender = User | Partner

record Message =
  msg_id :: jsstring
  msg_text :: jsstring
  sender :: sender
  timestamp :: int

datatype Status = Disconnected | Connecting | Waiting | Connected

text \<open>\<open>partnerId?: string\<close>: \<open>None\<close> is the absent property.\<close>

record ConnectionState =
  status :: Status
  partnerId :: "jsstring option"

text \<open>What the client emits on its socket.\<close>

datatype emit =
    Find_partner
  | Send_message jsstring
  | Typing_start
  | Typing_stop
  | Next_partner
  | Disconnect_chat

text \<open>
  The component: its five \<open>useState\<close> cells and two of its refs, together with what
  it has done to the world: the events emitted on the socket (oldest first) and the
  timeouts pending in the event loop, each with its handle and the milliseconds left.
  \<open>socketRef\<close> is \<open>True\<close> when \<open>socketRef.current\<close> holds a socket and \<open>False\<close> when it
  is \<open>null\<close>; \<open>typingTimeoutRef\<close> is \<open>None\<close> for \<open>null\<close> and a handle otherwise (a
  \<open>NodeJS.Timeout\<close>, which is truthy).
\<close>

record ChatApp =
  messages :: "Message list"
  currentMessage :: jsstring
  connection :: ConnectionState
  onlineUsers :: int
  isTyping :: bool
  socketRef :: bool
  typingTimeoutRef :: "nat option"
  emitted :: "emit list"
  timers :: "(nat \<times> nat) list"
  nextTimeout :: nat


definition init :: ChatApp where
  "init = \<lparr>messages = [], currentMessage = [],
     connection = \<lparr>status = Disconnected, partnerId = None\<rparr>,
     onlineUsers = 0, isTyping = False, socketRef = False, typingTimeoutRef = None,
     emitted = [], timers = [], nextTimeout = 1\<rparr>"

subsection \<open>The socket and the event loop\<close>

definition socket_emit :: "emit \<Rightarrow> ChatApp \<Rightarrow> ChatApp" where
  "socket_emit e s = s\<lparr>emitted := emitted s @ [e]\<rparr>"

text \<open>
  The only callback the component ever hands to \<open>setTimeout\<close> is the one of
  \<open>handleInputChange\<close>, so a pending timeout is its handle and its remaining delay.
\<close>

definition typing_timeout_callback :: "ChatApp \<Rightarrow> ChatApp" where
  "typing_timeout_callback s = (if socketRef s then socket_emit Typing_stop s else s)"

definition setTimeout :: "nat \<Rightarrow> ChatApp \<Rightarrow> nat \<times> ChatApp" where
  "setTimeout delay s =
     (nextTimeout s,
      s\<lparr>timers := timers s @ [(nextTimeout s, delay)], nextTimeout := Suc (nextTimeout s)\<rparr>)"

definition clearTimeout :: "nat \<Rightarrow> ChatApp \<Rightarrow> ChatApp" where
  "clearTimeout h s = s\<lparr>timers := filter (\<lambda>t. fst t \<noteq> h) (timers s)\<rparr>"

text \<open>
  \<open>d\<close> milliseconds pass: every pending timeout whose delay has run out fires, the
  others have \<open>d\<close> milliseconds less to wait.
\<close>

definition elapse :: "nat \<Rightarrow> ChatApp \<Rightarrow> ChatApp" where
  "elapse d s =
     fold (\<lambda>t. typing_timeout_callback) (filter (\<lambda>t. snd t \<le> d) (timers s))
       (s\<lparr>timers := map (\<lambda>t. (fst t, snd t - d)) (filter (\<lambda>t. d < snd t) (timers s))\<rparr>)"

subsection \<open>The effect: socket creation and the handlers of server events\<close>

text \<open>
  A handler that reads the clock takes the values \<open>Date.now()\<close> returns to it: \<open>t1\<close> for
  the first read (the message id), \<open>t2\<close> for the second (the timestamp).
\<close>

definition mount :: "ChatApp \<Rightarrow> ChatApp" where
  "mount s = s\<lparr>socketRef := True\<rparr>"

definition on_connect :: "ChatApp \<Rightarrow> ChatApp" where
  "on_connect s = s\<lparr>connection := \<lparr>status = Disconnected, partnerId = None\<rparr>\<rparr>"

definition on_disconnect :: "ChatApp \<Rightarrow> ChatApp" where
  "on_disconnect s =
     s\<lparr>connection := \<lparr>status = Disconnected, partnerId = None\<rparr>,
       messages := [], isTyping := False\<rparr>"

definition on_online_count :: "int \<Rightarrow> ChatApp \<Rightarrow> ChatApp" where
  "on_online_count count s = s\<lparr>onlineUsers := count\<rparr>"

definition on_waiting_for_partner :: "int \<Rightarrow> int \<Rightarrow> ChatApp \<Rightarrow> ChatApp" where
  "on_waiting_for_partner t1 t2 s =
     s\<lparr>connection := \<lparr>status = Waiting, partnerId = None\<rparr>,
       messages := [\<lparr>msg_id = js ''system_'' @ toString t1,
                     msg_text = js ''Looking for someone to chat with...'',
                     sender = User, timestamp = t2\<rparr>]\<rparr>"

record partner_found_data =
  data_partnerId :: jsstring
  data_message :: jsstring

definition on_partner_found :: "partner_found_data \<Rightarrow> int \<Rightarrow> ChatApp \<Rightarrow> ChatApp" where
  "on_partner_found data t1 s =
     s\<lparr>connection := \<lparr>status = Connected, partnerId = Some (data_partnerId data)\<rparr>,
       messages := [\<lparr>msg_id = js ''system_1'', msg_text = data_message data,
                     sender = User, timestamp = t1\<rparr>]\<rparr>"

definition on_partner_disconnected :: "jsstring \<Rightarrow> int \<Rightarrow> int \<Rightarrow> ChatApp \<Rightarrow> ChatApp" where
  "on_partner_disconnected message t1 t2 s =
     s\<lparr>connection := \<lparr>status = Waiting, partnerId = None\<rparr>,
       messages := messages s @ [\<lparr>msg_id = js ''system_'' @ toString t1,
                     msg_text = message, sender = User, timestamp = t2\<rparr>],
       isTyping := False\<rparr>"

definition on_message_received :: "Message \<Rightarrow> ChatApp \<Rightarrow> ChatApp" where
  "on_message_received message s =
     s\<lparr>messages := messages s @ [message], isTyping := False\<rparr>"

definition on_partner_typing_start :: "ChatApp \<Rightarrow> ChatApp" where
  "on_partner_typing_start s = s\<lparr>isTyping := True\<rparr>"

definition on_partner_typing_stop :: "ChatApp \<Rightarrow> ChatApp" where
  "on_partner_typing_stop s = s\<lparr>isTyping := False\<rparr>"

text \<open>The \<open>error\<close> handler only writes to the console.\<close>

definition on_error :: "jsstring \<Rightarrow> ChatApp \<Rightarrow> ChatApp" where
  "on_error message s = s"

subsection \<open>The handlers of user actions\<close>

definition handleConnect :: "ChatApp \<Rightarrow> ChatApp" where
  "handleConnect s =
     (if socketRef s \<and> status (connection s) = Disconnected
      then socket_emit Find_partner
             (s\<lparr>connection := \<lparr>status = Connecting, partnerId = None\<rparr>\<rparr>)
      else s)"

definition handleSendMessage :: "int \<Rightarrow> int \<Rightarrow> ChatApp \<Rightarrow> ChatApp" where
  "handleSendMessage t1 t2 s =
     (if trim (currentMessage s) = [] \<or> status (connection s) \<noteq> Connected \<or> \<not> socketRef s
      then s
      else
        let newMessage = \<lparr>msg_id = toString t1, msg_text = currentMessage s,
                           sender = User, timestamp = t2\<rparr>;
            s1 = s\<lparr>messages := messages s @ [newMessage]\<rparr>;
            s2 = socket_emit (Send_message (currentMessage s)) s1;
            s3 = s2\<lparr>currentMessage := []\<rparr>
        in socket_emit Typing_stop s3)"

definition handleNext :: "int \<Rightarrow> int \<Rightarrow> ChatApp \<Rightarrow> ChatApp" where
  "handleNext t1 t2 s =
     (if status (connection s) = Connected \<and> socketRef s
      then
        let s1 = socket_emit Next_partner s;
            s2 = s1\<lparr>connection := \<lparr>status = Waiting, partnerId = None\<rparr>\<rparr>;
            s3 = s2\<lparr>messages := messages s2 @ [\<lparr>msg_id = js ''system_'' @ toString t1,
                     msg_text = js ''Looking for a new partner...'',
                     sender = User, timestamp = t2\<rparr>]\<rparr>
        in s3\<lparr>isTyping := False\<rparr>
      else s)"

definition handleDisconnect :: "ChatApp \<Rightarrow> ChatApp" where
  "handleDisconnect s =
     (if socketRef s
      then
        let s1 = socket_emit Disconnect_chat s
        in s1\<lparr>connection := \<lparr>status = Disconnected, partnerId = None\<rparr>,
              messages := [], isTyping := False\<rparr>
      else s)"

definition handleInputChange :: "jsstring \<Rightarrow> ChatApp \<Rightarrow> ChatApp" where
  "handleInputChange v s =
     (let s1 = s\<lparr>currentMessage := v\<rparr>
      in if status (connection s) = Connected \<and> socketRef s
         then
           let s2 = socket_emit Typing_start s1;
               s3 = (case typingTimeoutRef s2 of
                       Some h \<Rightarrow> clearTimeout h s2
                     | None \<Rightarrow> s2);
               (h', s4) = setTimeout 1000 s3
           in s4\<lparr>typingTimeoutRef := Some h'\<rparr>
         else s1)"

text \<open>The \<open>onKeyDown\<close> of the input element.\<close>

definition onKeyDown :: "jsstring \<Rightarrow> int \<Rightarrow> int \<Rightarrow> ChatApp \<Rightarrow> ChatApp" where
  "onKeyDown key t1 t2 s =
     (if key = js ''Enter'' \<and> trim (currentMessage s) \<noteq> []
         \<and> status (connection s) = Connected
      then handleSendMessage t1 t2 s
      else s)"

subsection \<open>Events and runs\<close>

datatype server_event =
    Connect
  | Disconnect
  | Online_count int
  | Waiting_for_partner
  | Partner_found partner_found_data
  | Partner_disconnected jsstring
  | Message_received Message
  | Partner_typing_start
  | Partner_typing_stop
  | Error jsstring

datatype user_action =
    Start_chatting
  | Send
  | Key_down jsstring
  | Next
  | Leave
  | Input_change jsstring

datatype event =
    Mount
  | Socket server_event
  | Action user_action
  | Elapse nat

fun on_server :: "int \<Rightarrow> int \<Rightarrow> server_event \<Rightarrow> ChatApp \<Rightarrow> ChatApp" where
  "on_server t1 t2 Connect s = on_connect s"
| "on_server t1 t2 Disconnect s = on_disconnect s"
| "on_server t1 t2 (Online_count count) s = on_online_count count s"
| "on_server t1 t2 Waiting_for_partner s = on_waiting_for_partner t1 t2 s"
| "on_server t1 t2 (Partner_found data) s = on_partner_found data t1 s"
| "on_server t1 t2 (Partner_disconnected message) s = on_partner_disconnected message t1 t2 s"
| "on_server t1 t2 (Message_received message) s = on_message_received message s"
| "on_server t1 t2 Partner_typing_start s = on_partner_typing_start s"
| "on_server t1 t2 Partner_typing_stop s = on_partner_typing_stop s"
| "on_server t1 t2 (Error message) s = on_error message s"

fun on_user :: "int \<Rightarrow> int \<Rightarrow> user_action \<Rightarrow> ChatApp \<Rightarrow> ChatApp" where
  "on_user t1 t2 Start_chatting s = handleConnect s"
| "on_user t1 t2 Send s = handleSendMessage t1 t2 s"
| "on_user t1 t2 (Key_down key) s = onKeyDown key t1 t2 s"
| "on_user t1 t2 Next s = handleNext t1 t2 s"
| "on_user t1 t2 Leave s = handleDisconnect s"
| "on_user t1 t2 (Input_change v) s = handleInputChange v s"

text \<open>
  One step of the component. The handlers of server events are registered on the socket
  the effect creates, so no server event is handled before the effect has run. A user
  action calls its handler in any state: the buttons that are not rendered and the
  disabled input only remove calls.
\<close>

fun step :: "int \<Rightarrow> int \<Rightarrow> event \<Rightarrow> ChatApp \<Rightarrow> ChatApp" where
  "step t1 t2 Mount s = mount s"
| "step t1 t2 (Socket e) s = (if socketRef s then on_server t1 t2 e s else s)"
| "step t1 t2 (Action a) s = on_user t1 t2 a s"
| "step t1 t2 (Elapse d) s = elapse d s"

text \<open>A run: the events in order, each with the two clock values its handler reads.\<close>

definition run_from :: "ChatApp \<Rightarrow> (int \<times> int \<times> event) list \<Rightarrow> ChatApp" where
  "run_from s evs = foldl (\<lambda>s (t1, t2, ev). step t1 t2 ev s) s evs"

definition run :: "(int \<times> int \<times> event) list \<Rightarrow> ChatApp" where
  "run evs = run_from init evs"

text \<open>The milliseconds that pass in a run, and whether an event is an input change.\<close>

fun elapsed :: "(int \<times> int \<times> event) list \<Rightarrow> nat" where
  "elapsed [] = 0"
| "elapsed ((t1, t2, Elapse d) # evs) = d + elapsed evs"
| "elapsed (e # evs) = elapsed evs"

fun is_input_change :: "int \<times> int \<times> event \<Rightarrow> bool" where
  "is_input_change (t1, t2, Action (Input_change v)) = True"
| "is_input_change (t1, t2, ev) = False"



text \<open>Every pending timeout is the one \<open>typingTimeoutRef\<close> holds.\<close>

definition timeout_tracked :: "ChatApp \<Rightarrow> bool" where
  "timeout_tracked s = list_all (\<lambda>t. typingTimeoutRef s = Some (fst t)) (timers s)"

text \<open>The events that are meant for a partner.\<close>

fun needs_partner :: "emit \<Rightarrow> bool" where
  "needs_partner (Send_message txt) = True"
| "needs_partner Typing_start = True"
| "needs_partner Next_partner = True"
| "needs_partner e = False"

text \<open>A \<open>partnerId\<close> is recorded only when the status is \<open>connected\<close>.\<close>

definition partner_only_when_connected :: "ConnectionState \<Rightarrow> bool" where
  "partner_only_when_connected c \<longleftrightarrow> partnerId c = None \<or> status c = Connected"

text \<open>An example: the client after it has asked for a partner and has been paired.\<close>

definition example_paired :: ChatApp where
  "example_paired = run
     [(0, 0, Mount), (1, 1, Action Start_chatting),
      (2, 2, Socket (Partner_found \<lparr>data_partnerId = js ''p'', data_message = js ''hi''\<rparr>))]"

section \<open>The server\<close>

text \<open>
  The sources hold the client only; of the server there is the README's sketch. What
  follows is the server as the specification describes it, as far as it decides which
  connections are paired: the three structures and their mutation by each inbound event.
  Of the notifications only the relayed \<open>message_received\<close> is modelled. A connection
  is in state Paired when the Pairing Table holds a partner for it, Waiting when it is in
  the Waiting Pool, and Idle otherwise.
\<close>

text \<open>
  Modelled from the spec: the Connection Registry (the live connections), the Waiting
  Pool and the Pairing Table, absent from the sources.
\<close>

record 'c server =
  registry :: "'c list"
  pool :: "'c list"
  partner_of :: "'c \<rightharpoonup> 'c"

datatype conn_state = Conn_idle | Conn_waiting | Conn_paired

text \<open>
  What reaches the server from a connection: the transport-level connect and
  disconnect, and the events the client emits.
\<close>

datatype inbound = Opened | Closed | Emitted emit

text \<open>Modelled from the spec: the server at process start, all structures empty.\<close>

definition server_init :: "'c server" where
  "server_init = \<lparr>registry = [], pool = [], partner_of = Map.empty\<rparr>"

text \<open>Modelled from the spec: the state of a connection, read off the structures.\<close>

definition state_of :: "'c server \<Rightarrow> 'c \<Rightarrow> conn_state" where
  "state_of S c =
     (if partner_of S c \<noteq> None then Conn_paired
      else if c \<in> set (pool S) then Conn_waiting else Conn_idle)"

text \<open>Modelled from the spec: \<open>register\<close> of the Connection Registry (4.1).\<close>

definition register :: "'c \<Rightarrow> 'c server \<Rightarrow> 'c server" where
  "register c S = (if c \<in> set (registry S) then S else S\<lparr>registry := registry S @ [c]\<rparr>)"

text \<open>
  Modelled from the spec: \<open>enqueue\<close> of the Waiting Pool (4.2), a no-op if the
  connection is already present.
\<close>

definition enqueue :: "'c \<Rightarrow> 'c server \<Rightarrow> 'c server" where
  "enqueue c S = (if c \<in> set (pool S) then S else S\<lparr>pool := pool S @ [c]\<rparr>)"

text \<open>Modelled from the spec: \<open>remove\<close> of the Waiting Pool (4.2), idempotent.\<close>

definition pool_remove :: "'c \<Rightarrow> 'c server \<Rightarrow> 'c server" where
  "pool_remove c S = S\<lparr>pool := removeAll c (pool S)\<rparr>"

text \<open>
  Modelled from the spec: \<open>dequeueRandomExcluding\<close> of the Waiting Pool (4.2): a random
  member of the pool other than \<open>c\<close> is removed and returned, none if there is no other
  member. The random draw is the parameter \<open>r\<close>, which selects the index. The README's
  \<open>findRandomPartner\<close> selects in the same way: it filters out the excluded id, returns
  null on an empty rest and takes a random index otherwise.
\<close>

definition dequeueRandomExcluding :: "nat \<Rightarrow> 'c \<Rightarrow> 'c server \<Rightarrow> 'c option \<times> 'c server" where
  "dequeueRandomExcluding r c S =
     (let candidates = filter (\<lambda>x. x \<noteq> c) (pool S)
      in if candidates = [] then (None, S)
         else let p = candidates ! (r mod length candidates)
              in (Some p, pool_remove p S))"

text \<open>
  Modelled from the spec: \<open>create\<close> of the Pairing Table (4.4), which fails, changing
  nothing, if either connection is already paired.
\<close>

definition create :: "'c \<Rightarrow> 'c \<Rightarrow> 'c server \<Rightarrow> 'c server" where
  "create a b S =
     (if partner_of S a \<noteq> None \<or> partner_of S b \<noteq> None then S
      else S\<lparr>partner_of := (partner_of S)(a \<mapsto> b, b \<mapsto> a)\<rparr>)"

text \<open>
  Modelled from the spec: \<open>findPartnerFor\<close> of the Matching Engine (4.3): pair with the
  dequeued candidate, or wait in the pool if there is none.
\<close>

definition findPartnerFor :: "nat \<Rightarrow> 'c \<Rightarrow> 'c server \<Rightarrow> 'c server" where
  "findPartnerFor r c S =
     (case dequeueRandomExcluding r c S of
        (Some p, S') \<Rightarrow> create c p S'
      | (None, S') \<Rightarrow> enqueue c S')"

text \<open>
  Modelled from the spec: \<open>breakPairing\<close> of the Pairing Table (4.4): the symmetric entry
  is removed and the partner goes to Waiting; a no-op on an unpaired connection.
\<close>

definition breakPairing :: "'c \<Rightarrow> 'c server \<Rightarrow> 'c server" where
  "breakPairing c S =
     (case partner_of S c of
        None \<Rightarrow> S
      | Some p \<Rightarrow> enqueue p (S\<lparr>partner_of := (partner_of S)(c := None, p := None)\<rparr>))"

text \<open>
  Modelled from the spec: \<open>remove\<close> of the Connection Registry (4.1) on disconnect (4.6):
  the pairing is broken, then every trace of the connection is removed from the registry,
  the pool and the pairing table.
\<close>

definition remove_connection :: "'c \<Rightarrow> 'c server \<Rightarrow> 'c server" where
  "remove_connection c S =
     (let S1 = breakPairing c S
      in S1\<lparr>registry := removeAll c (registry S1), pool := removeAll c (pool S1),
            partner_of := (partner_of S1)(c := None)\<rparr>)"

text \<open>
  Modelled from the spec: the Lifecycle Coordinator (4.6) on an event of a live
  connection. \<open>find_partner\<close> is for an Idle connection, \<open>next_partner\<close> for a Paired one
  (break, then match again), \<open>disconnect_chat\<close> leaves the pairing or the pool; an event
  in another state is dropped. The relayed events change no structure.
\<close>

fun on_emitted :: "nat \<Rightarrow> 'c \<Rightarrow> emit \<Rightarrow> 'c server \<Rightarrow> 'c server" where
  "on_emitted r c Find_partner S =
     (if state_of S c = Conn_idle then findPartnerFor r c S else S)"
| "on_emitted r c Next_partner S =
     (if state_of S c = Conn_paired then findPartnerFor r c (breakPairing c S) else S)"
| "on_emitted r c Disconnect_chat S =
     (if state_of S c = Conn_paired then breakPairing c S else pool_remove c S)"
| "on_emitted r c (Send_message txt) S = S"
| "on_emitted r c Typing_start S = S"
| "on_emitted r c Typing_stop S = S"

text \<open>
  Modelled from the spec: one inbound event, from connection \<open>c\<close>, with the random draw
  \<open>r\<close> of its handling; and a run of the server from process start.
\<close>

fun server_step :: "nat \<Rightarrow> 'c \<Rightarrow> inbound \<Rightarrow> 'c server \<Rightarrow> 'c server" where
  "server_step r c Opened S = register c S"
| "server_step r c Closed S = remove_connection c S"
| "server_step r c (Emitted e) S = (if c \<in> set (registry S) then on_emitted r c e S else S)"

definition server_run :: "(nat \<times> 'c \<times> inbound) list \<Rightarrow> 'c server" where
  "server_run evs = foldl (\<lambda>S (r, c, ev). server_step r c ev S) server_init evs"

text \<open>
  Modelled from the spec: the server's relay of a chat message (the Session Event
  Router) is not among the sources, which hold the client only. A chat message is valid
  only when its sender is paired; it is validated non-empty after trimming and
  length-capped at 500 units, assigned an id and a server timestamp, and forwarded
  verbatim to the partner tagged as received from the partner. Nothing is relayed back
  to the sender. The README's sketch of the server agrees: it emits \<open>message_received\<close>
  with \<open>sender: 'partner'\<close> on the partner's socket. \<open>pairing\<close> is the Pairing
  Table of the server; the result lists the \<open>message_received\<close> events sent, each with the connection
  it is sent to.
\<close>

definition relay_send_message ::
  "('c \<rightharpoonup> 'c) \<Rightarrow> 'c \<Rightarrow> jsstring \<Rightarrow> jsstring \<Rightarrow> int \<Rightarrow> ('c \<times> Message) list" where
  "relay_send_message pairing from txt fresh_id now =
     (case pairing from of
        None \<Rightarrow> []
      | Some p \<Rightarrow>
          if trim txt = [] \<or> 500 < length txt then []
          else [(p, \<lparr>msg_id = fresh_id, msg_text = txt, sender = Partner, timestamp = now\<rparr>)])"

section \<open>Auxiliary facts\<close>

lemmas handler_defs =
  mount_def on_connect_def on_disconnect_def on_online_count_def on_waiting_for_partner_def
  on_partner_found_def on_partner_disconnected_def on_message_received_def
  on_partner_typing_start_def on_partner_typing_stop_def on_error_def
  handleConnect_def handleSendMessage_def handleNext_def handleDisconnect_def
  handleInputChange_def onKeyDown_def socket_emit_def setTimeout_def clearTimeout_def



lemma fold_typing_timeout_callback:
  "fold (\<lambda>t. typing_timeout_callback) ts s =
     (if socketRef s then s\<lparr>emitted := emitted s @ replicate (length ts) Typing_stop\<rparr> else s)"
  by (induction ts arbitrary: s)
     (simp_all add: typing_timeout_callback_def socket_emit_def replicate_app_Cons_same)

lemma elapse_eq:
  "elapse d s =
     (if socketRef s
      then s\<lparr>timers := map (\<lambda>t. (fst t, snd t - d)) (filter (\<lambda>t. d < snd t) (timers s)),
             emitted := emitted s @
               replicate (length (filter (\<lambda>t. snd t \<le> d) (timers s))) Typing_stop\<rparr>
      else s\<lparr>timers := map (\<lambda>t. (fst t, snd t - d)) (filter (\<lambda>t. d < snd t) (timers s))\<rparr>)"
  by (simp add: elapse_def fold_typing_timeout_callback)

lemma run_from_snoc: "run_from s (evs @ [(t1, t2, ev)]) = step t1 t2 ev (run_from s evs)"
  by (simp add: run_from_def)

lemma run_Nil: "run [] = init"
  by (simp add: run_def run_from_def)

lemma run_snoc: "run (evs @ [(t1, t2, ev)]) = step t1 t2 ev (run evs)"
  by (simp add: run_def run_from_def)

subsection \<open>What is typed is within the cap, what is sent was typed\<close>








lemma example_paired_eq:
  "example_paired =
     \<lparr>messages = [\<lparr>msg_id = js ''system_1'', msg_text = js ''hi'', sender = User,
                    timestamp = 2\<rparr>],
      currentMessage = [],
      connection = \<lparr>status = Connected, partnerId = Some (js ''p'')\<rparr>,
      onlineUsers = 0, isTyping = False, socketRef = True, typingTimeoutRef = None,
      emitted = [Find_partner], timers = [], nextTimeout = 1\<rparr>"
  by (simp add: example_paired_def run_def run_from_def handler_defs init_def)

subsection \<open>Invariants of a step\<close>

lemma step_socketRef:
  "socketRef s \<or> status (connection s) = Disconnected \<Longrightarrow>
   socketRef (step t1 t2 ev s) \<or> status (connection (step t1 t2 ev s)) = Disconnected"
proof (cases ev)
  case Mount
  then show ?thesis by (simp add: mount_def)
next
  case (Socket e)
  assume "socketRef s \<or> status (connection s) = Disconnected"
  with Socket show ?thesis by (cases e) (auto simp: handler_defs)
next
  case (Action a)
  assume "socketRef s \<or> status (connection s) = Disconnected"
  with Action show ?thesis
    by (cases a) (auto simp: handler_defs Let_def split: option.splits)
next
  case (Elapse d)
  assume "socketRef s \<or> status (connection s) = Disconnected"
  with Elapse show ?thesis by (auto simp: elapse_eq)
qed

lemma run_socketRef: "socketRef (run evs) \<or> status (connection (run evs)) = Disconnected"
proof (induction evs rule: rev_induct)
  case Nil
  show ?case by (simp add: run_Nil init_def)
next
  case (snoc x evs)
  obtain t1 t2 ev where x: "x = (t1, t2, ev)" by (cases x)
  from snoc.IH show ?case unfolding x run_snoc by (rule step_socketRef)
qed

lemma step_connection:
  "connection (step t1 t2 ev s) = connection s
   \<or> partner_only_when_connected (connection (step t1 t2 ev s))"
proof (cases ev)
  case Mount
  then show ?thesis by (simp add: mount_def)
next
  case (Socket e)
  then show ?thesis by (cases e) (simp_all add: handler_defs partner_only_when_connected_def)
next
  case (Action a)
  then show ?thesis
    by (cases a)
       (auto simp: handler_defs partner_only_when_connected_def Let_def split: option.splits)
next
  case (Elapse d)
  then show ?thesis by (simp add: elapse_eq)
qed

lemma run_connection: "partner_only_when_connected (connection (run evs))"
proof (induction evs rule: rev_induct)
  case Nil
  show ?case by (simp add: run_Nil init_def partner_only_when_connected_def)
next
  case (snoc x evs)
  obtain t1 t2 ev where x: "x = (t1, t2, ev)" by (cases x)
  from snoc.IH step_connection [of t1 t2 ev "run evs"] show ?case
    unfolding x run_snoc by auto
qed

lemma step_emitted:
  "\<exists>new. emitted (step t1 t2 ev s) = emitted s @ new \<and>
     (status (connection s) \<noteq> Connected \<longrightarrow> \<not> list_ex needs_partner new)"
proof (cases ev)
  case Mount
  then show ?thesis by (simp add: mount_def)
next
  case (Socket e)
  then show ?thesis by (cases e) (simp_all add: handler_defs)
next
  case (Action a)
  then show ?thesis
    by (cases a) (auto simp: handler_defs Let_def split: option.splits)
next
  case (Elapse d)
  then show ?thesis by (auto simp: elapse_eq list_ex_iff)
qed

lemma step_timeout_tracked: "timeout_tracked s \<Longrightarrow> timeout_tracked (step t1 t2 ev s)"
proof (cases ev)
  case Mount
  assume "timeout_tracked s"
  with Mount show ?thesis by (simp add: mount_def timeout_tracked_def)
next
  case (Socket e)
  assume "timeout_tracked s"
  with Socket show ?thesis by (cases e) (simp_all add: handler_defs timeout_tracked_def)
next
  case (Action a)
  assume "timeout_tracked s"
  with Action show ?thesis
    by (cases a)
       (auto simp: handler_defs timeout_tracked_def Let_def list_all_iff split: option.splits)
next
  case (Elapse d)
  assume "timeout_tracked s"
  with Elapse show ?thesis by (auto simp: elapse_eq timeout_tracked_def list_all_iff)
qed

lemma run_timeout_tracked: "timeout_tracked (run evs)"
proof (induction evs rule: rev_induct)
  case Nil
  show ?case by (simp add: run_Nil init_def timeout_tracked_def)
next
  case (snoc x evs)
  obtain t1 t2 ev where x: "x = (t1, t2, ev)" by (cases x)
  from snoc.IH show ?case unfolding x run_snoc by (rule step_timeout_tracked)
qed

lemma tracked_filter:
  "timeout_tracked s \<Longrightarrow> typingTimeoutRef s = Some h \<Longrightarrow>
     filter (\<lambda>t. fst t \<noteq> h) (timers s) = []"
  by (auto simp: timeout_tracked_def list_all_iff filter_empty_conv)

lemma tracked_None: "timeout_tracked s \<Longrightarrow> typingTimeoutRef s = None \<Longrightarrow> timers s = []"
  by (cases "timers s") (simp_all add: timeout_tracked_def)

lemma handleInputChange_connected:
  assumes "status (connection s) = Connected" "socketRef s" "timeout_tracked s"
  shows "handleInputChange v s =
     s\<lparr>currentMessage := v, emitted := emitted s @ [Typing_start],
       timers := [(nextTimeout s, 1000)], nextTimeout := Suc (nextTimeout s),
       typingTimeoutRef := Some (nextTimeout s)\<rparr>"
proof (cases "typingTimeoutRef s")
  case None
  with assms tracked_None [of s] show ?thesis
    by (simp add: handleInputChange_def socket_emit_def setTimeout_def Let_def)
next
  case (Some h)
  with assms tracked_filter [of s h] show ?thesis
    by (simp add: handleInputChange_def socket_emit_def setTimeout_def clearTimeout_def Let_def)
qed

lemma elapsed_append: "elapsed (xs @ ys) = elapsed xs + elapsed ys"
  by (induction xs rule: elapsed.induct) simp_all

lemma step_socket_kept: "socketRef s \<Longrightarrow> socketRef (step t1 t2 ev s)"
proof (cases ev)
  case Mount
  then show ?thesis by (simp add: mount_def)
next
  case (Socket e)
  assume "socketRef s"
  with Socket show ?thesis by (cases e) (simp_all add: handler_defs)
next
  case (Action a)
  assume "socketRef s"
  with Action show ?thesis
    by (cases a) (auto simp: handler_defs Let_def split: option.splits)
next
  case (Elapse d)
  assume "socketRef s"
  with Elapse show ?thesis by (simp add: elapse_eq)
qed

lemma step_timers_kept:
  "\<not> is_input_change (t1, t2, ev) \<Longrightarrow> (\<forall>d. ev \<noteq> Elapse d) \<Longrightarrow>
     timers (step t1 t2 ev s) = timers s"
proof (cases ev)
  case Mount
  then show ?thesis by (simp add: mount_def)
next
  case (Socket e)
  then show ?thesis by (cases e) (simp_all add: handler_defs)
next
  case (Action a)
  assume "\<not> is_input_change (t1, t2, ev)"
  with Action show ?thesis
    by (cases a) (auto simp: handler_defs Let_def split: option.splits)
next
  case (Elapse d)
  assume "\<forall>d. ev \<noteq> Elapse d"
  with Elapse show ?thesis by simp
qed

lemma pending_timeout_fires:
  assumes "socketRef u" and "timers u = [(h, r)]" and "0 < r"
    and "\<not> list_ex is_input_change evs"
  shows "socketRef (run_from u evs)
    \<and> timers (run_from u evs) = (if elapsed evs < r then [(h, r - elapsed evs)] else [])
    \<and> (\<exists>new. emitted (run_from u evs) = emitted u @ new
          \<and> (r \<le> elapsed evs \<longrightarrow> Typing_stop \<in> set new))"
  using assms(4)
proof (induction evs rule: rev_induct)
  case Nil
  from assms(1-3) show ?case by (simp add: run_from_def)
next
  case (snoc x evs)
  obtain t1 t2 ev where x: "x = (t1, t2, ev)" by (cases x)
  let ?s = "run_from u evs"
  from snoc.prems have no: "\<not> list_ex is_input_change evs" and nx: "\<not> is_input_change (t1, t2, ev)"
    by (simp_all add: x)
  from snoc.IH [OF no] obtain new where
    sock: "socketRef ?s"
    and tm: "timers ?s = (if elapsed evs < r then [(h, r - elapsed evs)] else [])"
    and em: "emitted ?s = emitted u @ new"
    and fired: "r \<le> elapsed evs \<longrightarrow> Typing_stop \<in> set new"
    by blast
  have run: "run_from u (evs @ [x]) = step t1 t2 ev ?s"
    by (simp add: x run_from_snoc)
  have sock': "socketRef (step t1 t2 ev ?s)"
    using sock by (rule step_socket_kept)
  show ?case
  proof (cases "\<exists>d. ev = Elapse d")
    case True
    then obtain d where ev: "ev = Elapse d" by blast
    have el: "elapsed (evs @ [x]) = elapsed evs + d"
      by (simp add: elapsed_append x ev)
    from sock tm em fired show ?thesis
      unfolding run el ev by (auto simp: elapse_eq)
  next
    case False
    then have el: "elapsed (evs @ [x]) = elapsed evs"
      by (cases ev) (simp_all add: elapsed_append x)
    from False nx have "timers (step t1 t2 ev ?s) = timers ?s"
      by (intro step_timers_kept) simp_all
    moreover obtain new' where "emitted (step t1 t2 ev ?s) = emitted ?s @ new'"
      using step_emitted by blast
    ultimately show ?thesis
      unfolding run el using sock' tm em fired by auto
  qed
qed

subsection \<open>No connection is paired with itself\<close>

lemma dequeue_other:
  assumes "dequeueRandomExcluding r c S = (Some p, S')"
  shows "p \<noteq> c \<and> partner_of S' = partner_of S"
proof -
  let ?cs = "filter (\<lambda>x. x \<noteq> c) (pool S)"
  from assms have ne: "?cs \<noteq> []"
    by (auto simp: dequeueRandomExcluding_def Let_def split: if_splits)
  with assms have p: "p = ?cs ! (r mod length ?cs)" and S': "S' = pool_remove p S"
    by (auto simp: dequeueRandomExcluding_def Let_def split: if_splits)
  from ne have "r mod length ?cs < length ?cs" by simp
  then have "?cs ! (r mod length ?cs) \<in> set ?cs" by (rule nth_mem)
  with p have "p \<noteq> c" by simp
  with S' show ?thesis by (simp add: pool_remove_def)
qed

lemma dequeue_none: "dequeueRandomExcluding r c S = (None, S') \<Longrightarrow> S' = S"
  by (auto simp: dequeueRandomExcluding_def Let_def split: if_splits)

lemma enqueue_partner_of: "partner_of (enqueue c S) = partner_of S"
  by (simp add: enqueue_def)

lemma findPartnerFor_no_self:
  assumes "\<forall>a. partner_of S a \<noteq> Some a"
  shows "\<forall>a. partner_of (findPartnerFor r c S) a \<noteq> Some a"
proof (cases "dequeueRandomExcluding r c S")
  case (Pair found S')
  show ?thesis
  proof (cases found)
    case None
    with Pair dequeue_none [of r c S S'] have "S' = S" by simp
    with Pair None assms show ?thesis
      by (simp add: findPartnerFor_def enqueue_partner_of)
  next
    case (Some p)
    with Pair dequeue_other [of r c S p S'] have "p \<noteq> c" and "partner_of S' = partner_of S"
      by simp_all
    with Pair Some assms show ?thesis
      by (auto simp: findPartnerFor_def create_def)
  qed
qed

lemma breakPairing_no_self:
  "\<forall>a. partner_of S a \<noteq> Some a \<Longrightarrow> \<forall>a. partner_of (breakPairing c S) a \<noteq> Some a"
  by (auto simp: breakPairing_def enqueue_partner_of split: option.splits)

lemma server_step_no_self:
  assumes inv: "\<forall>a. partner_of S a \<noteq> Some a"
  shows "\<forall>a. partner_of (server_step r c ev S) a \<noteq> Some a"
proof (cases ev)
  case Opened
  with inv show ?thesis by (simp add: register_def)
next
  case Closed
  from inv have "\<forall>a. partner_of (breakPairing c S) a \<noteq> Some a"
    by (rule breakPairing_no_self)
  with Closed show ?thesis
    by (simp add: remove_connection_def Let_def)
next
  case (Emitted e)
  show ?thesis
  proof (cases e)
    case Find_partner
    with Emitted inv findPartnerFor_no_self [of S r c] show ?thesis by simp
  next
    case Next_partner
    with Emitted inv findPartnerFor_no_self [OF breakPairing_no_self [OF inv], of r c c]
    show ?thesis by simp
  next
    case Disconnect_chat
    with Emitted inv breakPairing_no_self [of S c] show ?thesis
      by (simp add: pool_remove_def)
  qed (use Emitted inv in simp_all)
qed

lemma server_run_no_self: "partner_of (server_run evs) a \<noteq> Some a"
proof -
  have "\<forall>a. partner_of (server_run evs) a \<noteq> Some a"
  proof (induction evs rule: rev_induct)
    case Nil
    show ?case by (simp add: server_run_def server_init_def)
  next
    case (snoc x evs)
    obtain r c ev where x: "x = (r, c, ev)" by (cases x)
    from snoc.IH have "\<forall>a. partner_of (server_step r c ev (server_run evs)) a \<noteq> Some a"
      by (rule server_step_no_self)
    then show ?case by (simp add: server_run_def x)
  qed
  then show ?thesis by simp
qed

section \<open>Sending a chat message\<close>




section \<open>Events for a partner\<close>

text \<open>
  C2. In every state whose connection status is not \<open>connected\<close>, the handlers for sending
  a message (button and Enter key), for input changes and for the Next button emit
  nothing; and whatever event the component handles in such a state, what it emits then
  holds no \<open>send_message\<close>, no \<open>typing_start\<close> and no \<open>next_partner\<close>: these are
  emitted only while the status is \<open>connected\<close>.
\<close>

theorem partner_events_only_while_connected:
  "status (connection s) \<noteq> Connected \<longrightarrow>
     emitted (handleSendMessage t1 t2 s) = emitted s
   \<and> emitted (handleInputChange v s) = emitted s
   \<and> emitted (handleNext t1 t2 s) = emitted s
   \<and> emitted (onKeyDown key t1 t2 s) = emitted s
   \<and> emitted (step t1 t2 ev s) =
       emitted s @ drop (length (emitted s)) (emitted (step t1 t2 ev s))
   \<and> \<not> list_ex needs_partner (drop (length (emitted s)) (emitted (step t1 t2 ev s)))"
proof
  assume nc: "status (connection s) \<noteq> Connected"
  obtain new where new: "emitted (step t1 t2 ev s) = emitted s @ new"
      and "status (connection s) \<noteq> Connected \<longrightarrow> \<not> list_ex needs_partner new"
    using step_emitted by blast
  with nc have "\<not> list_ex needs_partner new" by simp
  with new nc show "emitted (handleSendMessage t1 t2 s) = emitted s
   \<and> emitted (handleInputChange v s) = emitted s
   \<and> emitted (handleNext t1 t2 s) = emitted s
   \<and> emitted (onKeyDown key t1 t2 s) = emitted s
   \<and> emitted (step t1 t2 ev s) =
       emitted s @ drop (length (emitted s)) (emitted (step t1 t2 ev s))
   \<and> \<not> list_ex needs_partner (drop (length (emitted s)) (emitted (step t1 t2 ev s)))"
    by (simp add: handleSendMessage_def handleInputChange_def handleNext_def onKeyDown_def)
qed

theorem partner_events_only_while_connected_witness:
  "status (connection (mount init)) \<noteq> Connected
   \<and> emitted (handleSendMessage 0 0 (mount init)) = []
   \<and> emitted (handleInputChange (js ''a'') (mount init)) = []
   \<and> emitted (handleNext 0 0 (mount init)) = []
   \<and> emitted (onKeyDown (js ''Enter'') 0 0 (mount init)) = []
   \<and> emitted (step 0 0 (Action Start_chatting) (mount init)) = [Find_partner]
   \<and> \<not> list_ex needs_partner [Find_partner]"
  using partner_events_only_while_connected
    [of "mount init" 0 0 "js ''a''" "js ''Enter''" "Action Start_chatting"]
  by (simp add: handler_defs init_def)

section \<open>Server events\<close>

text \<open>
  C3. On \<open>partner_found\<close> with a partnerId and an announcement message, the connection
  becomes \<open>connected\<close> with exactly that partnerId, and the message list becomes the single
  announcement message, whatever it held before.
\<close>

theorem partner_found_connects:
  "connection (on_partner_found data t s) =
     \<lparr>status = Connected, partnerId = Some (data_partnerId data)\<rparr>
   \<and> messages (on_partner_found data t s) =
       [\<lparr>msg_id = js ''system_1'', msg_text = data_message data, sender = User,
         timestamp = t\<rparr>]"
  by (simp add: on_partner_found_def)

text \<open>
  C4. On \<open>partner_disconnected\<close>, in any state and so in every state that holds a partner,
  the status becomes \<open>waiting\<close>, not \<open>disconnected\<close>, the connection state holds no
  partnerId any more, and the partner-typing indicator is cleared.
\<close>

theorem partner_disconnected_waits:
  "status (connection (on_partner_disconnected message t1 t2 s)) = Waiting
   \<and> status (connection (on_partner_disconnected message t1 t2 s)) \<noteq> Disconnected
   \<and> partnerId (connection (on_partner_disconnected message t1 t2 s)) = None
   \<and> isTyping (on_partner_disconnected message t1 t2 s) = False"
  by (simp add: on_partner_disconnected_def)

section \<open>The typing timeout\<close>

text \<open>
  C5. An input change while connected schedules \<open>typing_stop\<close> for 1000 milliseconds later:
  afterwards the one pending timeout is the new one, with 1000 milliseconds to go. While
  less than that has passed nothing is emitted, and a further input change then cancels
  the pending timeout and schedules a fresh one with the full delay. Once 1000
  milliseconds have passed \<open>typing_stop\<close> is emitted, and so it is in every continuation
  without an input change in which at least 1000 milliseconds pass, whatever else happens
  in it. The condition on the pending timeouts holds in every run and is kept by every
  step.
\<close>

theorem typing_stop_after_one_second:
  "(status (connection s) = Connected \<and> socketRef s \<and> timeout_tracked s \<longrightarrow>
      timers (handleInputChange v s) = [(nextTimeout s, 1000)]
    \<and> typingTimeoutRef (handleInputChange v s) = Some (nextTimeout s)
    \<and> emitted (handleInputChange v s) = emitted s @ [Typing_start]
    \<and> (\<forall>d. d < 1000 \<longrightarrow>
          emitted (elapse d (handleInputChange v s)) = emitted s @ [Typing_start]
        \<and> timers (elapse d (handleInputChange v s)) = [(nextTimeout s, 1000 - d)]
        \<and> timers (handleInputChange v' (elapse d (handleInputChange v s))) =
            [(Suc (nextTimeout s), 1000)]
        \<and> emitted (handleInputChange v' (elapse d (handleInputChange v s))) =
            emitted s @ [Typing_start, Typing_start])
    \<and> (\<forall>d. 1000 \<le> d \<longrightarrow>
          emitted (elapse d (handleInputChange v s)) = emitted s @ [Typing_start, Typing_stop]
        \<and> timers (elapse d (handleInputChange v s)) = [])
    \<and> (\<not> list_ex is_input_change evs \<and> 1000 \<le> elapsed evs \<longrightarrow>
          Typing_stop \<in> set (drop (length (emitted (handleInputChange v s)))
                              (emitted (run_from (handleInputChange v s) evs)))
        \<and> timers (run_from (handleInputChange v s) evs) = []))
   \<and> timeout_tracked (run evs')
   \<and> (timeout_tracked s \<longrightarrow> timeout_tracked (step t1 t2 ev s))"
proof (intro conjI impI allI)
  show "timeout_tracked (run evs')" by (rule run_timeout_tracked)
next
  assume "timeout_tracked s"
  then show "timeout_tracked (step t1 t2 ev s)" by (rule step_timeout_tracked)
next
  assume h: "status (connection s) = Connected \<and> socketRef s \<and> timeout_tracked s"
  then have s1: "handleInputChange v s =
     s\<lparr>currentMessage := v, emitted := emitted s @ [Typing_start],
       timers := [(nextTimeout s, 1000)], nextTimeout := Suc (nextTimeout s),
       typingTimeoutRef := Some (nextTimeout s)\<rparr>"
    by (simp add: handleInputChange_connected)
  show "timers (handleInputChange v s) = [(nextTimeout s, 1000)]"
    and "typingTimeoutRef (handleInputChange v s) = Some (nextTimeout s)"
    and "emitted (handleInputChange v s) = emitted s @ [Typing_start]"
    by (simp_all add: s1)
  {
    fix d :: nat
    assume d: "d < 1000"
    with h have e: "elapse d (handleInputChange v s) =
      s\<lparr>currentMessage := v, emitted := emitted s @ [Typing_start],
       timers := [(nextTimeout s, 1000 - d)], nextTimeout := Suc (nextTimeout s),
       typingTimeoutRef := Some (nextTimeout s)\<rparr>"
      by (simp add: s1 elapse_eq)
    have "timeout_tracked (elapse d (handleInputChange v s))"
      by (simp add: e timeout_tracked_def)
    with h have s2: "handleInputChange v' (elapse d (handleInputChange v s)) =
      (elapse d (handleInputChange v s))\<lparr>currentMessage := v',
        emitted := emitted s @ [Typing_start, Typing_start],
        timers := [(Suc (nextTimeout s), 1000)], nextTimeout := Suc (Suc (nextTimeout s)),
        typingTimeoutRef := Some (Suc (nextTimeout s))\<rparr>"
      by (subst handleInputChange_connected) (simp_all add: e)
    show "emitted (elapse d (handleInputChange v s)) = emitted s @ [Typing_start]"
      and "timers (elapse d (handleInputChange v s)) = [(nextTimeout s, 1000 - d)]"
      by (simp_all add: e)
    show "timers (handleInputChange v' (elapse d (handleInputChange v s))) =
            [(Suc (nextTimeout s), 1000)]"
      and "emitted (handleInputChange v' (elapse d (handleInputChange v s))) =
            emitted s @ [Typing_start, Typing_start]"
      by (simp_all add: s2)
  }
  {
    fix d :: nat
    assume "1000 \<le> d"
    with h show "emitted (elapse d (handleInputChange v s)) =
        emitted s @ [Typing_start, Typing_stop]"
      and "timers (elapse d (handleInputChange v s)) = []"
      by (simp_all add: s1 elapse_eq)
  }
  {
    assume a: "\<not> list_ex is_input_change evs \<and> 1000 \<le> elapsed evs"
    from h have "socketRef (handleInputChange v s)"
      and "timers (handleInputChange v s) = [(nextTimeout s, 1000)]"
      by (simp_all add: s1)
    from pending_timeout_fires [OF this _ conjunct1 [OF a]] a
    obtain new where "timers (run_from (handleInputChange v s) evs) = []"
      and "emitted (run_from (handleInputChange v s) evs) = emitted (handleInputChange v s) @ new"
      and "Typing_stop \<in> set new"
      by auto
    then show "Typing_stop \<in> set (drop (length (emitted (handleInputChange v s)))
                              (emitted (run_from (handleInputChange v s) evs)))"
      and "timers (run_from (handleInputChange v s) evs) = []"
      by simp_all
  }
qed

theorem typing_stop_after_one_second_witness:
  "status (connection example_paired) = Connected \<and> socketRef example_paired
   \<and> timeout_tracked example_paired
   \<and> timers (handleInputChange (js ''h'') example_paired) = [(1, 1000)]
   \<and> emitted (handleInputChange (js ''h'') example_paired) = [Find_partner, Typing_start]
   \<and> emitted (elapse 400 (handleInputChange (js ''h'') example_paired)) =
       [Find_partner, Typing_start]
   \<and> timers (elapse 400 (handleInputChange (js ''h'') example_paired)) = [(1, 600)]
   \<and> timers (handleInputChange (js ''he'')
        (elapse 400 (handleInputChange (js ''h'') example_paired))) = [(2, 1000)]
   \<and> emitted (elapse 1000 (handleInputChange (js ''h'') example_paired)) =
       [Find_partner, Typing_start, Typing_stop]
   \<and> \<not> list_ex is_input_change
        [(3, 3, Elapse 400), (4, 4, Socket Partner_typing_start), (5, 5, Elapse 700)]
   \<and> 1000 \<le> elapsed
        [(3, 3, Elapse 400), (4, 4, Socket Partner_typing_start), (5, 5, Elapse 700)]
   \<and> Typing_stop \<in> set (drop 2 (emitted (run_from (handleInputChange (js ''h'') example_paired)
        [(3, 3, Elapse 400), (4, 4, Socket Partner_typing_start), (5, 5, Elapse 700)])))
   \<and> timers (run_from (handleInputChange (js ''h'') example_paired)
        [(3, 3, Elapse 400), (4, 4, Socket Partner_typing_start), (5, 5, Elapse 700)]) = []"
proof -
  let ?s = "example_paired"
  let ?s1 = "handleInputChange (js ''h'') example_paired"
  let ?evs = "[(3, 3, Elapse 400), (4, 4, Socket Partner_typing_start), (5, 5, Elapse 700)]
    :: (int \<times> int \<times> event) list"
  have hyp: "status (connection ?s) = Connected \<and> socketRef ?s \<and> timeout_tracked ?s"
    by (simp add: example_paired_eq timeout_tracked_def)
  have quiet: "\<not> list_ex is_input_change ?evs \<and> 1000 \<le> elapsed ?evs"
    by simp
  have next1: "nextTimeout ?s = 1" and out: "emitted ?s = [Find_partner]"
    by (simp_all add: example_paired_eq)
  note T = typing_stop_after_one_second [of ?s "js ''h''" "js ''he''" ?evs "[]" 0 0 Mount]
  from T hyp have now: "timers ?s1 = [(nextTimeout ?s, 1000)]
      \<and> emitted ?s1 = emitted ?s @ [Typing_start]"
    by blast
  from T hyp have "\<forall>d. d < 1000 \<longrightarrow>
          emitted (elapse d ?s1) = emitted ?s @ [Typing_start]
        \<and> timers (elapse d ?s1) = [(nextTimeout ?s, 1000 - d)]
        \<and> timers (handleInputChange (js ''he'') (elapse d ?s1)) =
            [(Suc (nextTimeout ?s), 1000)]
        \<and> emitted (handleInputChange (js ''he'') (elapse d ?s1)) =
            emitted ?s @ [Typing_start, Typing_start]"
    by blast
  then have early: "emitted (elapse 400 ?s1) = emitted ?s @ [Typing_start]
        \<and> timers (elapse 400 ?s1) = [(nextTimeout ?s, 1000 - 400)]
        \<and> timers (handleInputChange (js ''he'') (elapse 400 ?s1)) =
            [(Suc (nextTimeout ?s), 1000)]"
    by simp
  from T hyp have "\<forall>d. 1000 \<le> d \<longrightarrow>
          emitted (elapse d ?s1) = emitted ?s @ [Typing_start, Typing_stop]
        \<and> timers (elapse d ?s1) = []"
    by blast
  then have late: "emitted (elapse 1000 ?s1) = emitted ?s @ [Typing_start, Typing_stop]"
    by simp
  from T hyp quiet have idle: "Typing_stop \<in> set (drop (length (emitted ?s1))
                              (emitted (run_from ?s1 ?evs)))
        \<and> timers (run_from ?s1 ?evs) = []"
    by blast
  from hyp quiet now early late idle show ?thesis
    by (simp add: next1 out numeral_2_eq_2)
qed

section \<open>The Next button\<close>

text \<open>
  C6. A Next action while the status is \<open>connected\<close> (the socket exists then, in every
  run) emits exactly one \<open>next_partner\<close>, sets the status to \<open>waiting\<close>, appends the
  notice \<open>Looking for a new partner...\<close> to the message list and clears the partner-typing
  indicator, and changes nothing else. When the status is not \<open>connected\<close> the action
  emits nothing and leaves the state as it is.
\<close>

theorem next_partner_skips:
  "(status (connection s) = Connected \<and> socketRef s \<longrightarrow>
      handleNext t1 t2 s =
        s\<lparr>emitted := emitted s @ [Next_partner],
          connection := \<lparr>status = Waiting, partnerId = None\<rparr>,
          messages := messages s @
            [\<lparr>msg_id = js ''system_'' @ toString t1,
              msg_text = js ''Looking for a new partner...'',
              sender = User, timestamp = t2\<rparr>],
          isTyping := False\<rparr>)
   \<and> (status (connection s) \<noteq> Connected \<longrightarrow> handleNext t1 t2 s = s)
   \<and> (status (connection (run evs)) = Connected \<longrightarrow> socketRef (run evs))"
proof -
  have "status (connection (run evs)) = Connected \<longrightarrow> socketRef (run evs)"
    using run_socketRef [of evs] by auto
  then show ?thesis by (simp add: handleNext_def socket_emit_def Let_def)
qed

theorem next_partner_skips_witness:
  "status (connection example_paired) = Connected \<and> socketRef example_paired
   \<and> handleNext 7 8 example_paired =
        example_paired\<lparr>emitted := [Find_partner, Next_partner],
          connection := \<lparr>status = Waiting, partnerId = None\<rparr>,
          messages := messages example_paired @
            [\<lparr>msg_id = js ''system_'' @ toString 7,
              msg_text = js ''Looking for a new partner...'',
              sender = User, timestamp = 8\<rparr>],
          isTyping := False\<rparr>
   \<and> status (connection (mount init)) \<noteq> Connected
   \<and> handleNext 7 8 (mount init) = mount init"
  using next_partner_skips [of example_paired 7 8 "[]"]
    next_partner_skips [of "mount init" 7 8 "[]"]
  by (simp add: example_paired_eq mount_def init_def)

section \<open>The local echo and the relay\<close>

text \<open>
  C7. When the user sends a message, the client appends it to its own message list tagged
  \<open>user\<close> and emits it. The client appends every message it receives by
  \<open>message_received\<close> as it is. Whatever has happened at the server since its start, the
  relay sends a message to the partner of its sender only, tagged \<open>partner\<close>, so the
  partner's client appends it tagged as coming from the partner; the partner is never the
  sender itself, so the sender never receives its own message back. A valid message of a
  paired sender is delivered, once, to the partner.
\<close>

theorem local_echo_and_relay:
  "(trim (currentMessage s) \<noteq> [] \<and> status (connection s) = Connected \<and> socketRef s \<longrightarrow>
      messages (handleSendMessage t1 t2 s) =
        messages s @ [\<lparr>msg_id = toString t1, msg_text = currentMessage s,
                        sender = User, timestamp = t2\<rparr>]
    \<and> emitted (handleSendMessage t1 t2 s) =
        emitted s @ [Send_message (currentMessage s), Typing_stop])
   \<and> messages (on_message_received m p) = messages p @ [m]
   \<and> (\<forall>(dest, m') \<in> set (relay_send_message (partner_of (server_run evs)) me txt fresh_id now).
          dest \<noteq> me \<and> partner_of (server_run evs) me = Some dest
        \<and> sender m' = Partner \<and> msg_text m' = txt
        \<and> messages (on_message_received m' p) = messages p @ [m']
        \<and> sender (last (messages (on_message_received m' p))) = Partner)
   \<and> (partner_of (server_run evs) me = Some q \<and> trim txt \<noteq> [] \<and> length txt \<le> 500 \<longrightarrow>
        q \<noteq> me
      \<and> relay_send_message (partner_of (server_run evs)) me txt fresh_id now =
          [(q, \<lparr>msg_id = fresh_id, msg_text = txt, sender = Partner, timestamp = now\<rparr>)])"
  using server_run_no_self [of evs me]
  by (auto simp: handleSendMessage_def socket_emit_def Let_def on_message_received_def
      relay_send_message_def split: option.splits if_splits)

theorem local_echo_and_relay_witness:
  "trim (currentMessage (handleInputChange (js ''yo'') example_paired)) \<noteq> []
   \<and> status (connection (handleInputChange (js ''yo'') example_paired)) = Connected
   \<and> socketRef (handleInputChange (js ''yo'') example_paired)
   \<and> messages (handleSendMessage 5 6 (handleInputChange (js ''yo'') example_paired)) =
       [\<lparr>msg_id = js ''system_1'', msg_text = js ''hi'', sender = User, timestamp = 2\<rparr>,
        \<lparr>msg_id = toString 5, msg_text = js ''yo'', sender = User, timestamp = 6\<rparr>]
   \<and> emitted (handleSendMessage 5 6 (handleInputChange (js ''yo'') example_paired)) =
       [Find_partner, Typing_start, Send_message (js ''yo''), Typing_stop]
   \<and> partner_of (server_run
        [(0, js ''x'', Opened), (0, js ''y'', Opened),
         (0, js ''x'', Emitted Find_partner), (0, js ''y'', Emitted Find_partner)])
        (js ''x'') = Some (js ''y'')
   \<and> trim (js ''yo'') \<noteq> [] \<and> length (js ''yo'') \<le> 500
   \<and> js ''y'' \<noteq> js ''x''
   \<and> relay_send_message (partner_of (server_run
        [(0, js ''x'', Opened), (0, js ''y'', Opened),
         (0, js ''x'', Emitted Find_partner), (0, js ''y'', Emitted Find_partner)]))
        (js ''x'') (js ''yo'') (js ''m7'') 9 =
       [(js ''y'',
         \<lparr>msg_id = js ''m7'', msg_text = js ''yo'', sender = Partner, timestamp = 9\<rparr>)]
   \<and> messages (on_message_received
        \<lparr>msg_id = js ''m7'', msg_text = js ''yo'', sender = Partner, timestamp = 9\<rparr>
        example_paired) =
       [\<lparr>msg_id = js ''system_1'', msg_text = js ''hi'', sender = User, timestamp = 2\<rparr>,
        \<lparr>msg_id = js ''m7'', msg_text = js ''yo'', sender = Partner, timestamp = 9\<rparr>]"
proof -
  let ?s = "handleInputChange (js ''yo'') example_paired"
  let ?m = "\<lparr>msg_id = js ''m7'', msg_text = js ''yo'', sender = Partner, timestamp = 9\<rparr>"
  let ?evs = "[(0, js ''x'', Opened), (0, js ''y'', Opened),
         (0, js ''x'', Emitted Find_partner), (0, js ''y'', Emitted Find_partner)]"
  have client: "trim (currentMessage ?s) \<noteq> [] \<and> status (connection ?s) = Connected
      \<and> socketRef ?s"
    by (simp add: example_paired_eq handler_defs js_def trim_def isWhiteSpace_def Let_def)
  have paired: "partner_of (server_run ?evs) (js ''x'') = Some (js ''y'')"
    by (simp add: server_run_def server_init_def register_def state_of_def
        findPartnerFor_def dequeueRandomExcluding_def enqueue_def pool_remove_def
        create_def js_def Let_def)
  have valid: "trim (js ''yo'') \<noteq> [] \<and> length (js ''yo'') \<le> 500"
    by (simp add: js_def trim_def isWhiteSpace_def)
  note T = local_echo_and_relay
    [of ?s 5 6 ?m example_paired ?evs "js ''x''" "js ''yo''" "js ''m7''" 9 "js ''y''"]
  from T client have echo: "messages (handleSendMessage 5 6 ?s) =
        messages ?s @ [\<lparr>msg_id = toString 5, msg_text = currentMessage ?s,
                        sender = User, timestamp = 6\<rparr>]
    \<and> emitted (handleSendMessage 5 6 ?s) =
        emitted ?s @ [Send_message (currentMessage ?s), Typing_stop]"
    by blast
  from T have append: "messages (on_message_received ?m example_paired) =
      messages example_paired @ [?m]"
    by blast
  from T paired valid have relay: "js ''y'' \<noteq> js ''x''
      \<and> relay_send_message (partner_of (server_run ?evs)) (js ''x'') (js ''yo'') (js ''m7'') 9 =
          [(js ''y'', ?m)]"
    by blast
  have state: "messages ?s = messages example_paired"
    "emitted ?s = [Find_partner, Typing_start]" "currentMessage ?s = js ''yo''"
    by (simp_all add: example_paired_eq handler_defs Let_def)
  have base: "messages example_paired =
      [\<lparr>msg_id = js ''system_1'', msg_text = js ''hi'', sender = User, timestamp = 2\<rparr>]"
    by (simp add: example_paired_eq)
  from client paired valid echo append relay show ?thesis
    by (simp add: state base)
qed

section \<open>The connection state\<close>

text \<open>
  C8. A partnerId is recorded only when the status is \<open>connected\<close>: this holds in every
  run and is preserved by every step, be it a server event, a user action or a timeout.
  Every step that changes the connection state to a status other than \<open>connected\<close>
  (\<open>disconnected\<close>, \<open>connecting\<close> or \<open>waiting\<close>) leaves no partnerId in it.
\<close>

theorem partnerId_only_when_connected:
  "partner_only_when_connected (connection (run evs))
   \<and> (partner_only_when_connected (connection s) \<longrightarrow>
        partner_only_when_connected (connection (step t1 t2 ev s)))
   \<and> (connection (step t1 t2 ev s) = connection s
       \<or> status (connection (step t1 t2 ev s)) = Connected
       \<or> partnerId (connection (step t1 t2 ev s)) = None)"
  using run_connection [of evs] step_connection [of t1 t2 ev s]
  by (auto simp: partner_only_when_connected_def)

theorem partnerId_only_when_connected_witness:
  "partner_only_when_connected (connection example_paired)
   \<and> partnerId (connection example_paired) = Some (js ''p'')
   \<and> partner_only_when_connected (connection (step 3 3 (Action Next) example_paired))
   \<and> connection (step 3 3 (Action Next) example_paired) =
       \<lparr>status = Waiting, partnerId = None\<rparr>"
  using partnerId_only_when_connected [of "[]" example_paired 3 3 "Action Next"]
  by (simp add: example_paired_eq partner_only_when_connected_def handleNext_def
      socket_emit_def Let_def)

section \<open>The partner-typing indicator\<close>

text \<open>
  C9. Receiving \<open>message_received\<close>, \<open>partner_disconnected\<close> or the transport-level
  \<open>disconnect\<close> sets the partner-typing indicator to false, in any state.
\<close>

theorem typing_indicator_cleared:
  "isTyping (on_message_received message s) = False
   \<and> isTyping (on_partner_disconnected reason t1 t2 s) = False
   \<and> isTyping (on_disconnect s) = False"
  by (simp add: on_message_received_def on_partner_disconnected_def on_disconnect_def)

section \<open>Start Chatting\<close>

text \<open>
  C10. The Start-Chatting action leaves the whole state unchanged, emitting nothing, when
  the status is not \<open>disconnected\<close> (and when there is no socket yet); when the status is
  \<open>disconnected\<close> it sets the status to \<open>connecting\<close> and emits one \<open>find_partner\<close>.
  Repeating the action right away does nothing more: \<open>find_partner\<close> is not emitted a
  second time.
\<close>

theorem find_partner_once:
  "(status (connection s) \<noteq> Disconnected \<longrightarrow> handleConnect s = s)
   \<and> (\<not> socketRef s \<longrightarrow> handleConnect s = s)
   \<and> (status (connection s) = Disconnected \<and> socketRef s \<longrightarrow>
        handleConnect s =
          s\<lparr>connection := \<lparr>status = Connecting, partnerId = None\<rparr>,
            emitted := emitted s @ [Find_partner]\<rparr>)
   \<and> handleConnect (handleConnect s) = handleConnect s"
  by (simp add: handleConnect_def socket_emit_def)

theorem find_partner_once_witness:
  "status (connection (mount init)) = Disconnected \<and> socketRef (mount init)
   \<and> handleConnect (mount init) =
       (mount init)\<lparr>connection := \<lparr>status = Connecting, partnerId = None\<rparr>,
         emitted := [Find_partner]\<rparr>
   \<and> emitted (handleConnect (handleConnect (mount init))) = [Find_partner]
   \<and> status (connection example_paired) \<noteq> Disconnected
   \<and> handleConnect example_paired = example_paired"
proof -
  have hyp: "status (connection (mount init)) = Disconnected \<and> socketRef (mount init)"
    by (simp add: mount_def init_def)
  have other: "status (connection example_paired) \<noteq> Disconnected"
    by (simp add: example_paired_eq)
  have out: "emitted (mount init) = []"
    by (simp add: mount_def init_def)
  from find_partner_once [of "mount init"] hyp
  have first: "handleConnect (mount init) =
      (mount init)\<lparr>connection := \<lparr>status = Connecting, partnerId = None\<rparr>,
         emitted := emitted (mount init) @ [Find_partner]\<rparr>"
    and again: "handleConnect (handleConnect (mount init)) = handleConnect (mount init)"
    by blast+
  from find_partner_once [of example_paired] other
  have same: "handleConnect example_paired = example_paired"
    by blast
  have twice: "emitted (handleConnect (handleConnect (mount init))) = [Find_partner]"
    unfolding again by (simp add: first out)
  from hyp other same twice show ?thesis
    by (simp add: first out)
qed

end
